theory Spec2Isabelle
  imports Complex_Main
begin

section \<open>Workflow state machine (workflow/state\_machine.py)\<close>

text \<open>
  The enum \<open>WorkflowState\<close> with its string values, the dataclass \<open>StateTransition\<close>
  and the class \<open>ResearchStateMachine\<close>. Python floats are modelled as reals, Python
  ints as \<open>int\<close>. The metrics context is a dict read only through \<open>ctx.get(key, default)\<close>:
  each key is a field that is \<open>None\<close> when the key is absent, and \<open>dict_get\<close> is
  \<open>.get\<close> with its default. \<open>datetime.now()\<close> is the argument \<open>now\<close> of every
  operation that reads the clock.
\<close>

datatype WorkflowState =
  PLANNING | SEARCHING | ANALYZING | VALIDATING | REFINING | SYNTHESIZING | COMPLETED | FAILED

fun state_value :: "WorkflowState \<Rightarrow> string" where
  "state_value PLANNING = ''planning''"
| "state_value SEARCHING = ''searching''"
| "state_value ANALYZING = ''analyzing''"
| "state_value VALIDATING = ''validating''"
| "state_value REFINING = ''refining''"
| "state_value SYNTHESIZING = ''synthesizing''"
| "state_value COMPLETED = ''completed''"
| "state_value FAILED = ''failed''"

type_synonym datetime = nat

record StateTransition =
  from_state :: WorkflowState
  to_state :: WorkflowState
  condition :: string
  timestamp :: datetime
  reason :: string

record metrics_context =
  confidence :: "real option"
  coverage :: "real option"
  contradictions :: "int option"
  iterations_without_progress :: "int option"
  results_found :: "int option"
  validation_passed :: "bool option"
  synthesis_quality :: "real option"

definition empty_context :: metrics_context where
  "empty_context =
     \<lparr>confidence = None, coverage = None, contradictions = None,
      iterations_without_progress = None, results_found = None,
      validation_passed = None, synthesis_quality = None\<rparr>"

definition dict_get :: "'a option \<Rightarrow> 'a \<Rightarrow> 'a" where
  "dict_get entry dflt = (case entry of None \<Rightarrow> dflt | Some v \<Rightarrow> v)"

record machine =
  current_state :: WorkflowState
  state_history :: "StateTransition list"
  machine_context :: metrics_context

text \<open>\<open>__init__\<close>. The table \<open>transition_rules\<close> it also builds is never read.\<close>

definition init_machine :: machine where
  "init_machine =
     \<lparr>current_state = PLANNING, state_history = [], machine_context = empty_context\<rparr>"

text \<open>\<open>_transition_to\<close>: record the transition, move, return the new state.\<close>

definition transition_to ::
  "datetime \<Rightarrow> WorkflowState \<Rightarrow> string \<Rightarrow> machine \<Rightarrow> WorkflowState \<times> machine" where
  "transition_to now new_state rsn m =
     (let transition = \<lparr>from_state = current_state m, to_state = new_state,
                         condition = rsn, timestamp = now, reason = rsn\<rparr>
      in (new_state,
          m\<lparr>state_history := state_history m @ [transition], current_state := new_state\<rparr>))"

definition should_validate :: "machine \<Rightarrow> metrics_context \<Rightarrow> bool" where
  "should_validate m ctx =
     (if dict_get (results_found ctx) 0 = 0 then False
      else if current_state m = VALIDATING then False
      else dict_get (contradictions ctx) 0 > 2 \<or> dict_get (confidence ctx) 1.0 < 0.5)"

definition is_stuck :: "machine \<Rightarrow> metrics_context \<Rightarrow> bool" where
  "is_stuck m ctx =
     (if current_state m = REFINING then False
      else dict_get (iterations_without_progress ctx) 0 > 2)"

definition can_complete :: "machine \<Rightarrow> metrics_context \<Rightarrow> bool" where
  "can_complete m ctx =
     (dict_get (confidence ctx) 0 > 0.8 \<and>
      dict_get (coverage ctx) 0 > 0.75 \<and>
      dict_get (contradictions ctx) 99 = 0 \<and>
      current_state m = SYNTHESIZING)"

definition next_from_planning ::
  "datetime \<Rightarrow> metrics_context \<Rightarrow> machine \<Rightarrow> WorkflowState \<times> machine" where
  "next_from_planning now ctx m = transition_to now SEARCHING ''plan_complete'' m"

definition next_from_searching ::
  "datetime \<Rightarrow> metrics_context \<Rightarrow> machine \<Rightarrow> WorkflowState \<times> machine" where
  "next_from_searching now ctx m =
     (if dict_get (results_found ctx) 0 = 0 then transition_to now REFINING ''no_results'' m
      else transition_to now ANALYZING ''results_found'' m)"

definition next_from_analyzing ::
  "datetime \<Rightarrow> metrics_context \<Rightarrow> machine \<Rightarrow> WorkflowState \<times> machine" where
  "next_from_analyzing now ctx m =
     (let conf = dict_get (confidence ctx) 0.5 in
      if conf < 0.6 then transition_to now SEARCHING ''low_confidence'' m
      else if dict_get (contradictions ctx) 0 > 2
        then transition_to now VALIDATING ''contradictions_found'' m
      else if dict_get (coverage ctx) 0 > 0.7
        then transition_to now SYNTHESIZING ''sufficient_coverage'' m
      else transition_to now SEARCHING ''coverage_incomplete'' m)"

definition next_from_validating ::
  "datetime \<Rightarrow> metrics_context \<Rightarrow> machine \<Rightarrow> WorkflowState \<times> machine" where
  "next_from_validating now ctx m =
     (if dict_get (validation_passed ctx) False
        then transition_to now SYNTHESIZING ''validation_passed'' m
      else transition_to now REFINING ''validation_failed'' m)"

definition next_from_refining ::
  "datetime \<Rightarrow> metrics_context \<Rightarrow> machine \<Rightarrow> WorkflowState \<times> machine" where
  "next_from_refining now ctx m =
     (if dict_get (iterations_without_progress ctx) 0 > 2
        then transition_to now SYNTHESIZING ''forcing_synthesis_stuck_in_loop'' m
      else if dict_get (coverage ctx) 0 > 0.7 \<and> dict_get (results_found ctx) 0 > 0
        then transition_to now SYNTHESIZING ''sufficient_results_for_synthesis'' m
      else transition_to now SEARCHING ''strategy_refined'' m)"

definition next_from_synthesizing ::
  "datetime \<Rightarrow> metrics_context \<Rightarrow> machine \<Rightarrow> WorkflowState \<times> machine" where
  "next_from_synthesizing now ctx m =
     (let quality = dict_get (synthesis_quality ctx) 0.5 in
      if quality > 0.8 then transition_to now COMPLETED ''high_quality_synthesis'' m
      else transition_to now ANALYZING ''synthesis_needs_improvement'' m)"

text \<open>The dict \<open>next_state_map\<close> of \<open>next_state\<close>: it has no entry for the last two states.\<close>

fun next_state_map ::
  "WorkflowState \<Rightarrow> (datetime \<Rightarrow> metrics_context \<Rightarrow> machine \<Rightarrow> WorkflowState \<times> machine) option"
where
  "next_state_map PLANNING = Some next_from_planning"
| "next_state_map SEARCHING = Some next_from_searching"
| "next_state_map ANALYZING = Some next_from_analyzing"
| "next_state_map VALIDATING = Some next_from_validating"
| "next_state_map REFINING = Some next_from_refining"
| "next_state_map SYNTHESIZING = Some next_from_synthesizing"
| "next_state_map COMPLETED = None"
| "next_state_map FAILED = None"

definition next_state ::
  "datetime \<Rightarrow> metrics_context \<Rightarrow> machine \<Rightarrow> WorkflowState \<times> machine" where
  "next_state now ctx m0 =
     (let m = m0\<lparr>machine_context := ctx\<rparr>;
          current = current_state m
      in if should_validate m ctx
           then transition_to now VALIDATING ''contradictions_detected'' m
         else if is_stuck m ctx then transition_to now REFINING ''stuck_in_loop'' m
         else if can_complete m ctx then transition_to now COMPLETED ''objectives_met'' m
         else (case next_state_map current of
                 Some next_func \<Rightarrow> next_func now ctx m
               | None \<Rightarrow> (current, m)))"

definition get_state_path :: "machine \<Rightarrow> string list" where
  "get_state_path m =
     [state_value (current_state m)] @ map (\<lambda>t. state_value (to_state t)) (state_history m)"

definition can_backtrack :: "machine \<Rightarrow> bool" where
  "can_backtrack m = (length (state_history m) > 0)"

datatype py_error = IndexError | KeyError | ValueError

text \<open>\<open>list.pop()\<close> raises IndexError on an empty list; \<open>pop_n\<close> is the loop
  \<open>for _ in range(steps): self.state_history.pop()\<close>.\<close>

fun pop_n :: "nat \<Rightarrow> 'a list \<Rightarrow> py_error + 'a list" where
  "pop_n 0 xs = Inr xs"
| "pop_n (Suc n) xs = (if xs = [] then Inl IndexError else pop_n n (butlast xs))"

text \<open>\<open>range(steps)\<close> is empty for \<open>steps \<le> 0\<close>, which \<open>nat steps = 0\<close> gives.\<close>

definition backtrack :: "int \<Rightarrow> machine \<Rightarrow> py_error + (WorkflowState \<times> machine)" where
  "backtrack steps m =
     (if \<not> can_backtrack m \<or> steps > int (length (state_history m))
        then Inr (current_state m, m)
      else (case pop_n (nat steps) (state_history m) of
              Inl e \<Rightarrow> Inl e
            | Inr h \<Rightarrow>
                (let m' = m\<lparr>state_history := h\<rparr>;
                     m'' = (if state_history m' \<noteq> []
                            then m'\<lparr>current_state := to_state (last (state_history m'))\<rparr>
                            else m'\<lparr>current_state := PLANNING\<rparr>)
                 in Inr (current_state m'', m''))))"

text \<open>
  Sequences of calls on one machine. \<open>apply_op\<close> keeps the machine a call leaves behind;
  a call that raises ends the run with the error.
\<close>

datatype machine_op = NextState datetime metrics_context | Backtrack int

fun apply_op :: "machine_op \<Rightarrow> machine \<Rightarrow> py_error + machine" where
  "apply_op (NextState now ctx) m = Inr (snd (next_state now ctx m))"
| "apply_op (Backtrack steps) m =
     (case backtrack steps m of Inl e \<Rightarrow> Inl e | Inr (s, m') \<Rightarrow> Inr m')"

fun run_ops :: "machine_op list \<Rightarrow> machine \<Rightarrow> py_error + machine" where
  "run_ops [] m = Inr m"
| "run_ops (x # xs) m = (case apply_op x m of Inl e \<Rightarrow> Inl e | Inr m' \<Rightarrow> run_ops xs m')"

text \<open>The state a history stands for: the destination of its last transition, PLANNING
  when it is empty.\<close>

definition history_state :: "StateTransition list \<Rightarrow> WorkflowState" where
  "history_state h = (if h = [] then PLANNING else to_state (last h))"

definition machine_inv :: "machine \<Rightarrow> bool" where
  "machine_inv m = (current_state m = history_state (state_history m))"

text \<open>The path the specification describes: PLANNING, then every destination in order.\<close>

definition spec_state_path :: "machine \<Rightarrow> string list" where
  "spec_state_path m =
     state_value PLANNING # map (\<lambda>t. state_value (to_state t)) (state_history m)"

text \<open>Machines reached from a new one by calls of \<open>next_state\<close>, used as concrete inputs:
  after one call; in REFINING after two calls that found nothing; in COMPLETED after a
  search, an analysis and a synthesis that went well.\<close>

definition searching_machine :: machine where
  "searching_machine = snd (next_state 0 empty_context init_machine)"

definition refining_machine :: machine where
  "refining_machine = snd (next_state 1 empty_context searching_machine)"

definition completed_machine :: machine where
  "completed_machine =
     snd (next_state 3 (empty_context\<lparr>synthesis_quality := Some 0.9\<rparr>)
       (snd (next_state 2
               (empty_context\<lparr>confidence := Some 0.9, coverage := Some 0.8,
                               results_found := Some 1\<rparr>)
         (snd (next_state 1 (empty_context\<lparr>results_found := Some 1\<rparr>)
                 searching_machine)))))"

definition contradicting_context :: metrics_context where
  "contradicting_context =
     empty_context\<lparr>contradictions := Some 3, iterations_without_progress := Some 3,
                    results_found := Some 1\<rparr>"

section \<open>A/B testing (testing/ab\_testing.py)\<close>

text \<open>
  A Python dict is an association list in insertion order (the order \<open>.items()\<close> yields);
  the keys of a dict are distinct. The variant configurations and the metadata values are
  opaque, hence type parameters.
\<close>

datatype Variant = A | B | CONTROL

text \<open>\<open>Variant(value)\<close>: the member with that value, ValueError when there is none.\<close>

definition Variant_of_value :: "string \<Rightarrow> py_error + Variant" where
  "Variant_of_value s =
     (if s = ''A'' then Inr A else if s = ''B'' then Inr B
      else if s = ''control'' then Inr CONTROL else Inl ValueError)"

record 'v TestResult =
  variant :: Variant
  metric_name :: string
  metric_value :: real
  recorded_at :: datetime
  metadata :: "(string \<times> 'v) list"

record ('c, 'v) ABTest =
  test_name :: string
  metric :: string
  variants :: "(string \<times> 'c) list"
  results :: "'v TestResult list"
  variant_stats :: "(string \<times> real list) list"

definition ABTest_init :: "string \<Rightarrow> string \<Rightarrow> (string \<times> 'c) list \<Rightarrow> ('c, 'v) ABTest" where
  "ABTest_init nm mtr vars =
     \<lparr>test_name = nm, metric = mtr, variants = vars, results = [],
      variant_stats = map (\<lambda>v. (v, [])) (map fst vars)\<rparr>"

text \<open>\<open>self.variant_stats[variant].append(metric_value)\<close>: KeyError when the key is absent.\<close>

fun stats_append ::
  "string \<Rightarrow> real \<Rightarrow> (string \<times> real list) list \<Rightarrow> py_error + (string \<times> real list) list" where
  "stats_append k x [] = Inl KeyError"
| "stats_append k x ((k', vs) # rest) =
     (if k = k' then Inr ((k', vs @ [x]) # rest)
      else (case stats_append k x rest of
              Inl e \<Rightarrow> Inl e
            | Inr rest' \<Rightarrow> Inr ((k', vs) # rest')))"

text \<open>\<open>record_result\<close> returns nothing; the pair is its outcome and the test it leaves
  behind, which on an error holds whatever was written before the raise.\<close>

definition record_result ::
  "datetime \<Rightarrow> string \<Rightarrow> real \<Rightarrow> (string \<times> 'v) list option \<Rightarrow> ('c, 'v) ABTest
     \<Rightarrow> (py_error + unit) \<times> ('c, 'v) ABTest" where
  "record_result now vname value md t =
     (case (if vname \<in> set [''A'', ''B''] then Variant_of_value vname else Inr CONTROL) of
        Inl e \<Rightarrow> (Inl e, t)
      | Inr v \<Rightarrow>
          (let result = \<lparr>variant = v, metric_name = metric t, metric_value = value,
                         recorded_at = now,
                         metadata = (case md of None \<Rightarrow> [] | Some d \<Rightarrow> d)\<rparr>;
               t1 = t\<lparr>results := results t @ [result]\<rparr>
           in (case stats_append vname value (variant_stats t1) of
                 Inl e \<Rightarrow> (Inl e, t1)
               | Inr vs \<Rightarrow> (Inr (), t1\<lparr>variant_stats := vs\<rparr>))))"

record variant_summary =
  mean :: real
  count :: nat
  std_dev :: real

definition list_mean :: "real list \<Rightarrow> real" where
  "list_mean values = sum_list values / real (length values)"

text \<open>\<open>_std\<close>; \<open>variance ** 0.5\<close> is the square root.\<close>

definition std :: "real list \<Rightarrow> real" where
  "std values =
     (if length values < 2 then 0.0
      else (let mu = sum_list values / real (length values);
                variance = sum_list (map (\<lambda>x. (x - mu) ^ 2) values) / real (length values - 1)
            in sqrt variance))"

text \<open>The loop of \<open>get_winner\<close> that fills \<open>stats\<close>, skipping variants without values.\<close>

fun build_stats :: "(string \<times> real list) list \<Rightarrow> (string \<times> variant_summary) list" where
  "build_stats [] = []"
| "build_stats ((v, values) # rest) =
     (if values = [] then build_stats rest
      else (v, \<lparr>mean = sum_list values / real (length values), count = length values,
                std_dev = std values\<rparr>) # build_stats rest)"

text \<open>\<open>max(stats.items(), key=lambda x: x[1]["mean"])\<close>: ValueError on an empty sequence;
  a later item replaces the best one only when its key is strictly greater.\<close>

fun max_by_mean ::
  "(string \<times> variant_summary) list \<Rightarrow> py_error + (string \<times> variant_summary)" where
  "max_by_mean [] = Inl ValueError"
| "max_by_mean (x # xs) =
     Inr (foldl (\<lambda>best y. if mean (snd y) > mean (snd best) then y else best) x xs)"

definition calculate_confidence ::
  "string \<Rightarrow> (string \<times> variant_summary) list \<Rightarrow> py_error + real" where
  "calculate_confidence wnr stats =
     (case map_of stats wnr of
        None \<Rightarrow> Inl KeyError
      | Some ws \<Rightarrow>
          (let winner_mean = mean ws;
               margins = map (\<lambda>(v, vs). (winner_mean - mean vs) / max winner_mean 0.01)
                             (filter (\<lambda>(v, vs). v \<noteq> wnr) stats)
           in if margins = [] then Inr 0.5
              else (let avg_margin = sum_list margins / real (length margins)
                    in Inr (min 0.95 (0.5 + avg_margin)))))"

text \<open>\<open>str\<close> of an int, for the f-string of the insufficient-data message.\<close>

fun digits :: "nat \<Rightarrow> string" where
  "digits n =
     (if n < 10 then [''0123456789'' ! n]
      else digits (n div 10) @ [''0123456789'' ! (n mod 10)])"

declare digits.simps [simp del]

definition str_int :: "int \<Rightarrow> string" where
  "str_int i = (if i < 0 then CHR ''-'' # digits (nat (- i)) else digits (nat i))"

text \<open>The two dicts \<open>get_winner\<close> returns: \<open>{"winner": None, "reason": ...}\<close> and
  \<open>{"winner": ..., "mean": ..., "confidence": ..., "all_stats": ...}\<close>.\<close>

datatype winner_report =
  Insufficient string
| WinnerFound string real real "(string \<times> variant_summary) list"


definition get_winner :: "int \<Rightarrow> ('c, 'v) ABTest \<Rightarrow> py_error + winner_report" where
  "get_winner min_samples t =
     (if int (length (results t)) < min_samples
        then Inr (Insufficient (''Insufficient data (need '' @ str_int min_samples @
                                '' samples, have '' @ str_int (int (length (results t))) @ '')''))
      else (let stats = build_stats (variant_stats t) in
            case max_by_mean stats of
              Inl e \<Rightarrow> Inl e
            | Inr best_variant \<Rightarrow>
                (case calculate_confidence (fst best_variant) stats of
                   Inl e \<Rightarrow> Inl e
                 | Inr c \<Rightarrow> Inr (WinnerFound (fst best_variant) (mean (snd best_variant))
                                              c stats))))"

text \<open>The number of values held by \<open>variant_stats\<close>, over all variants.\<close>

definition stats_total :: "(string \<times> real list) list \<Rightarrow> nat" where
  "stats_total vs = sum_list (map (\<lambda>kv. length (snd kv)) vs)"

text \<open>The \<open>TestResult\<close> that \<open>record_result\<close> builds.\<close>

definition new_result ::
  "datetime \<Rightarrow> string \<Rightarrow> real \<Rightarrow> (string \<times> 'v) list option \<Rightarrow> ('c, 'v) ABTest \<Rightarrow> 'v TestResult"
where
  "new_result now vname value md t =
     \<lparr>variant = (if vname = ''A'' then A else if vname = ''B'' then B else CONTROL),
      metric_name = metric t, metric_value = value, recorded_at = now,
      metadata = (case md of None \<Rightarrow> [] | Some d \<Rightarrow> d)\<rparr>"

text \<open>
  The confidence of the winner in the words of the specification: the average relative
  margin over the other variants that have data, clamped to the range from 0.5 to 0.95,
  and 0.5 when there is no other such variant. \<open>other_means\<close> are the means of those
  variants, read off \<open>variant_stats\<close>.
\<close>

definition other_means :: "string \<Rightarrow> (string \<times> real list) list \<Rightarrow> real list" where
  "other_means w vs =
     map (\<lambda>kv. list_mean (snd kv)) (filter (\<lambda>kv. fst kv \<noteq> w \<and> snd kv \<noteq> []) vs)"

definition average_margin :: "real \<Rightarrow> real list \<Rightarrow> real" where
  "average_margin wm others =
     sum_list (map (\<lambda>om. (wm - om) / max wm 0.01) others) / real (length others)"

definition spec_confidence :: "real \<Rightarrow> real list \<Rightarrow> real" where
  "spec_confidence wm others =
     (if others = [] then 0.5 else max 0.5 (min 0.95 (average_margin wm others)))"

text \<open>The confidence as \<open>_calculate_confidence\<close> computes it: 0.5 plus the average relative
  margin, capped at 0.95.\<close>

definition margin_confidence :: "real \<Rightarrow> real list \<Rightarrow> real" where
  "margin_confidence wm others =
     (if others = [] then 0.5 else min 0.95 (0.5 + average_margin wm others))"

text \<open>The f-string of the insufficient-data branch of \<open>get_winner\<close>.\<close>

definition insufficient_message :: "int \<Rightarrow> nat \<Rightarrow> string" where
  "insufficient_message min_samples have =
     ''Insufficient data (need '' @ str_int min_samples @ '' samples, have '' @
     str_int (int have) @ '')''"

text \<open>Concrete tests. \<open>example_test\<close>: two registered variants, one result each.
  \<open>unregistered_test\<close>: one registered variant and one call for a name that is not
  registered.\<close>

definition example_test :: "(unit, unit) ABTest" where
  "example_test =
     snd (record_result 2 ''B'' 0.75 None
       (snd (record_result 1 ''A'' 1 None
          (ABTest_init ''planning_strategy'' ''confidence'' [(''A'', ()), (''B'', ())]))))"

definition unregistered_test :: "(unit, unit) ABTest" where
  "unregistered_test =
     snd (record_result 1 ''C'' 1 None
            (ABTest_init ''planning_strategy'' ''confidence'' [(''A'', ())]))"

section \<open>Properties of the workflow state machine\<close>

lemmas next_state_unfold =
  next_state_def transition_to_def should_validate_def is_stuck_def can_complete_def
  next_from_planning_def next_from_searching_def next_from_analyzing_def
  next_from_validating_def next_from_refining_def next_from_synthesizing_def
  dict_get_def Let_def

lemma searching_machine_eval:
  "searching_machine =
     \<lparr>current_state = SEARCHING,
      state_history = [\<lparr>from_state = PLANNING, to_state = SEARCHING,
                        condition = ''plan_complete'', timestamp = 0,
                        reason = ''plan_complete''\<rparr>],
      machine_context = empty_context\<rparr>"
  by (simp add: searching_machine_def init_machine_def empty_context_def next_state_unfold)

lemma refining_machine_state: "current_state refining_machine = REFINING"
  by (simp add: refining_machine_def searching_machine_eval empty_context_def next_state_unfold)

lemma completed_machine_state: "current_state completed_machine = COMPLETED"
  by (simp add: completed_machine_def searching_machine_eval empty_context_def
      next_state_unfold)

lemma completed_machine_history: "length (state_history completed_machine) = 4"
  by (simp add: completed_machine_def searching_machine_eval empty_context_def
      next_state_unfold)

text \<open>
  C1. The claim: from COMPLETED or FAILED, \<open>next_state\<close> commits no transition and leaves
  the current state as it is, for every context. The code: the dispatch table has no entry
  for the two states and falls through to \<open>return current\<close>, but the contradiction and
  stagnation checks run before the table and do not look at terminal states. On a machine
  that reached COMPLETED through four calls of \<open>next_state\<close>, a context with one result and
  three contradictions moves it to VALIDATING and appends a fifth transition.
\<close>

theorem next_state_leaves_completed:
  "current_state completed_machine = COMPLETED \<and>
   fst (next_state 4 contradicting_context completed_machine) = VALIDATING \<and>
   current_state (snd (next_state 4 contradicting_context completed_machine)) = VALIDATING \<and>
   state_history (snd (next_state 4 contradicting_context completed_machine)) =
     state_history completed_machine @
       [\<lparr>from_state = COMPLETED, to_state = VALIDATING,
         condition = ''contradictions_detected'', timestamp = 4,
         reason = ''contradictions_detected''\<rparr>]"
  by (simp add: completed_machine_state contradicting_context_def empty_context_def
      next_state_unfold)

text \<open>What the table alone does: when neither priority check fires, a call in a terminal
  state changes neither the current state nor the history.\<close>

lemma next_state_terminal_quiet:
  assumes "current_state m = COMPLETED \<or> current_state m = FAILED"
    and "\<not> should_validate m ctx" and "\<not> is_stuck m ctx"
  shows "next_state now ctx m = (current_state m, m\<lparr>machine_context := ctx\<rparr>)"
  using assms by (auto simp: next_state_unfold)

text \<open>
  C2. The claim: \<open>get_state_path\<close> is PLANNING followed by the destination of every
  transition in order. The code puts the current state, not the initial one, in front:
  after the first call of \<open>next_state\<close> on a new machine the path is searching, searching,
  while the path of the claim is planning, searching.
\<close>

theorem get_state_path_after_first_call:
  "get_state_path (snd (next_state 0 empty_context init_machine)) = [''searching'', ''searching''] \<and>
   spec_state_path (snd (next_state 0 empty_context init_machine)) = [''planning'', ''searching'']"
  by (simp add: get_state_path_def spec_state_path_def init_machine_def empty_context_def
      next_state_unfold)

text \<open>The two paths agree exactly on the machines still in PLANNING.\<close>

lemma get_state_path_spec_iff:
  "get_state_path m = spec_state_path m \<longleftrightarrow> current_state m = PLANNING"
  by (cases "current_state m") (simp_all add: get_state_path_def spec_state_path_def)

text \<open>
  C3, as claimed: in REFINING with \<open>iterations_without_progress > 2\<close>, \<open>next_state\<close> returns
  SYNTHESIZING whatever the other values are. It fails: with one result and three
  contradictions the contradiction check, which runs first, sends the machine to VALIDATING.
\<close>

theorem refining_exit_counterexample:
  "current_state refining_machine = REFINING \<and>
   dict_get (iterations_without_progress contradicting_context) 0 > 2 \<and>
   fst (next_state 2 contradicting_context refining_machine) = VALIDATING \<and>
   fst (next_state 2 contradicting_context refining_machine) \<noteq> SYNTHESIZING"
  by (simp add: refining_machine_state contradicting_context_def empty_context_def
      next_state_unfold)

text \<open>
  C3, amended: in REFINING with \<open>iterations_without_progress > 2\<close>, when contradiction
  escalation does not fire (\<open>results_found = 0\<close>, or \<open>contradictions \<le> 2\<close> and
  \<open>confidence \<ge> 0.5\<close>), \<open>next_state\<close> returns SYNTHESIZING, with reason
  forcing\_synthesis\_stuck\_in\_loop, whatever the coverage, validation and synthesis quality
  are; when it fires, \<open>next_state\<close> returns VALIDATING.
\<close>

theorem refining_exit_valve:
  assumes "current_state m = REFINING"
    and "dict_get (iterations_without_progress ctx) 0 > 2"
  shows "(if dict_get (results_found ctx) 0 = 0 \<or>
             (dict_get (contradictions ctx) 0 \<le> 2 \<and> dict_get (confidence ctx) 1.0 \<ge> 0.5)
          then next_state now ctx m =
                 transition_to now SYNTHESIZING ''forcing_synthesis_stuck_in_loop''
                   (m\<lparr>machine_context := ctx\<rparr>) \<and>
               fst (next_state now ctx m) = SYNTHESIZING
          else fst (next_state now ctx m) = VALIDATING)"
  using assms by (auto simp: next_state_unfold)

theorem refining_exit_valve_witness:
  "current_state refining_machine = REFINING \<and>
   dict_get (iterations_without_progress
               (empty_context\<lparr>iterations_without_progress := Some 3\<rparr>)) 0 > 2 \<and>
   fst (next_state 2 (empty_context\<lparr>iterations_without_progress := Some 3\<rparr>) refining_machine)
     = SYNTHESIZING"
  using refining_exit_valve [of refining_machine
      "empty_context\<lparr>iterations_without_progress := Some 3\<rparr>" 2]
  by (simp add: refining_machine_state empty_context_def dict_get_def transition_to_def)

text \<open>
  C4. With \<open>results_found > 0\<close> and (\<open>contradictions > 2\<close> or \<open>confidence < 0.5\<close>), in any
  state other than VALIDATING, COMPLETED and FAILED, \<open>next_state\<close> returns VALIDATING, moves
  there and appends the transition with reason contradictions\_detected. No other value of
  the context is looked at, so neither stagnation, nor early completion, nor the table
  can take its place.
\<close>

theorem contradiction_escalation:
  assumes "current_state m \<notin> {VALIDATING, COMPLETED, FAILED}"
    and "dict_get (results_found ctx) 0 > 0"
    and "dict_get (contradictions ctx) 0 > 2 \<or> dict_get (confidence ctx) 1.0 < 0.5"
  shows "fst (next_state now ctx m) = VALIDATING \<and>
         current_state (snd (next_state now ctx m)) = VALIDATING \<and>
         state_history (snd (next_state now ctx m)) =
           state_history m @
             [\<lparr>from_state = current_state m, to_state = VALIDATING,
               condition = ''contradictions_detected'', timestamp = now,
               reason = ''contradictions_detected''\<rparr>]"
  using assms by (auto simp: next_state_def should_validate_def transition_to_def Let_def)

theorem contradiction_escalation_witness:
  "current_state refining_machine \<notin> {VALIDATING, COMPLETED, FAILED} \<and>
   dict_get (results_found contradicting_context) 0 > 0 \<and>
   dict_get (contradictions contradicting_context) 0 > 2 \<and>
   fst (next_state 2 contradicting_context refining_machine) = VALIDATING \<and>
   state_history (snd (next_state 2 contradicting_context refining_machine)) =
     state_history refining_machine @
       [\<lparr>from_state = REFINING, to_state = VALIDATING,
         condition = ''contradictions_detected'', timestamp = 2,
         reason = ''contradictions_detected''\<rparr>]"
  using contradiction_escalation [of refining_machine contradicting_context 2]
  by (simp add: refining_machine_state contradicting_context_def empty_context_def dict_get_def)

text \<open>
  C5, as claimed: from PLANNING, \<open>next_state\<close> returns SEARCHING for every context. It
  fails on a new machine: with one result and three contradictions the call returns
  VALIDATING, and with only \<open>iterations_without_progress = 3\<close> it returns REFINING.
\<close>

theorem planning_counterexample:
  "current_state init_machine = PLANNING \<and>
   fst (next_state 0 contradicting_context init_machine) = VALIDATING \<and>
   fst (next_state 0 contradicting_context init_machine) \<noteq> SEARCHING \<and>
   fst (next_state 0 (empty_context\<lparr>iterations_without_progress := Some 3\<rparr>) init_machine)
     = REFINING"
  by (simp add: init_machine_def contradicting_context_def empty_context_def next_state_unfold)

text \<open>
  C5, amended: a new machine starts in PLANNING, and a call of \<open>next_state\<close> in PLANNING
  returns SEARCHING exactly for the contexts in which neither contradiction escalation
  (\<open>results_found \<noteq> 0\<close> and (\<open>contradictions > 2\<close> or \<open>confidence < 0.5\<close>)) nor stagnation
  escalation (\<open>iterations_without_progress > 2\<close>) fires.
\<close>

theorem planning_to_searching:
  "current_state init_machine = PLANNING \<and>
   (current_state m = PLANNING \<longrightarrow>
      (fst (next_state now ctx m) = SEARCHING \<longleftrightarrow>
         \<not> (dict_get (results_found ctx) 0 \<noteq> 0 \<and>
            (dict_get (contradictions ctx) 0 > 2 \<or> dict_get (confidence ctx) 1.0 < 0.5)) \<and>
         \<not> dict_get (iterations_without_progress ctx) 0 > 2))"
  by (auto simp: init_machine_def next_state_unfold)

theorem planning_to_searching_witness:
  "current_state init_machine = PLANNING \<and>
   fst (next_state 0 (empty_context\<lparr>confidence := Some 0.25\<rparr>) init_machine) = SEARCHING"
  using planning_to_searching [of init_machine 0 "empty_context\<lparr>confidence := Some 0.25\<rparr>"]
  by (simp add: init_machine_def empty_context_def dict_get_def)

text \<open>
  C6. With the empty context, in every state other than COMPLETED and FAILED, \<open>next_state\<close>
  does not return COMPLETED: it returns SEARCHING, ANALYZING or REFINING.
\<close>

theorem empty_context_never_completes:
  assumes "current_state m \<noteq> COMPLETED" and "current_state m \<noteq> FAILED"
  shows "fst (next_state now empty_context m) \<noteq> COMPLETED \<and>
         fst (next_state now empty_context m) \<in> {SEARCHING, ANALYZING, REFINING} \<and>
         current_state (snd (next_state now empty_context m)) \<noteq> COMPLETED"
  using assms by (cases "current_state m") (simp_all add: empty_context_def next_state_unfold)

theorem empty_context_never_completes_witness:
  "current_state refining_machine \<noteq> COMPLETED \<and> current_state refining_machine \<noteq> FAILED \<and>
   fst (next_state 2 empty_context refining_machine) = SEARCHING"
  using empty_context_never_completes [of refining_machine 2]
  by (simp add: refining_machine_state empty_context_def next_state_unfold)


text \<open>The loop of \<open>backtrack\<close> never pops an empty list when \<open>steps\<close> is within the
  history.\<close>

lemma pop_n_take: "n \<le> length xs \<Longrightarrow> pop_n n xs = Inr (take (length xs - n) xs)"
proof (induction n arbitrary: xs)
  case 0
  then show ?case by simp
next
  case (Suc n)
  then have nonempty: "xs \<noteq> []" by auto
  have "n \<le> length (butlast xs)" using Suc.prems by simp
  then have "pop_n n (butlast xs) = Inr (take (length (butlast xs) - n) (butlast xs))"
    by (rule Suc.IH)
  with nonempty show ?case by (simp add: butlast_conv_take)
qed

lemma backtrack_bails:
  "\<not> can_backtrack m \<or> steps > int (length (state_history m)) \<Longrightarrow>
   backtrack steps m = Inr (current_state m, m)"
  by (auto simp: backtrack_def)

lemma backtrack_pops:
  assumes "can_backtrack m" and "steps \<le> int (length (state_history m))"
  shows "backtrack steps m =
           Inr (history_state (take (length (state_history m) - nat steps) (state_history m)),
                m\<lparr>state_history := take (length (state_history m) - nat steps) (state_history m),
                  current_state :=
                    history_state (take (length (state_history m) - nat steps) (state_history m))\<rparr>)"
proof -
  have "nat steps \<le> length (state_history m)" using assms(2) by simp
  then have "pop_n (nat steps) (state_history m) =
               Inr (take (length (state_history m) - nat steps) (state_history m))"
    by (rule pop_n_take)
  with assms show ?thesis
    by (simp add: backtrack_def history_state_def Let_def)
qed

lemma backtrack_cases:
  "(backtrack steps m = Inr (current_state m, m) \<and>
      (\<not> can_backtrack m \<or> steps > int (length (state_history m)))) \<or>
   (\<exists>m'. backtrack steps m = Inr (current_state m', m') \<and> machine_inv m')"
proof (cases "\<not> can_backtrack m \<or> steps > int (length (state_history m))")
  case True
  then show ?thesis using backtrack_bails by blast
next
  case False
  then have "can_backtrack m" and "steps \<le> int (length (state_history m))" by auto
  from backtrack_pops [OF this] show ?thesis
    by (simp add: machine_inv_def)
qed

lemma next_state_step:
  "(state_history (snd (next_state now ctx m)) =
      state_history m @ [last (state_history (snd (next_state now ctx m)))] \<and>
    to_state (last (state_history (snd (next_state now ctx m)))) =
      current_state (snd (next_state now ctx m))) \<or>
   (state_history (snd (next_state now ctx m)) = state_history m \<and>
    current_state (snd (next_state now ctx m)) = current_state m)"
  by (cases "current_state m") (simp_all add: next_state_unfold)

lemma next_state_returns_current:
  "fst (next_state now ctx m) = current_state (snd (next_state now ctx m))"
  by (cases "current_state m") (simp_all add: next_state_unfold)

lemma next_state_inv: "machine_inv m \<Longrightarrow> machine_inv (snd (next_state now ctx m))"
  using next_state_step [of now ctx m]
  by (auto simp: machine_inv_def history_state_def)

lemma apply_op_inv: "machine_inv m \<Longrightarrow> \<exists>m'. apply_op x m = Inr m' \<and> machine_inv m'"
proof (cases x)
  case (NextState now ctx)
  assume "machine_inv m"
  with NextState show ?thesis by (simp add: next_state_inv)
next
  case (Backtrack steps)
  assume "machine_inv m"
  with Backtrack backtrack_cases [of steps m] show ?thesis by auto
qed

lemma run_ops_inv: "machine_inv m \<Longrightarrow> \<exists>m'. run_ops xs m = Inr m' \<and> machine_inv m'"
proof (induction xs arbitrary: m)
  case Nil
  then show ?case by simp
next
  case (Cons x xs)
  from apply_op_inv [OF Cons.prems] obtain m1
    where step: "apply_op x m = Inr m1" and inv: "machine_inv m1" by blast
  from Cons.IH [OF inv] step show ?case by simp
qed

text \<open>
  C9. Every sequence of \<open>next_state\<close> and \<open>backtrack\<close> calls on a new machine runs without
  error and ends in a machine whose current state is the destination of the last transition
  of its history, PLANNING when the history is empty. A call of \<open>next_state\<close> either appends
  exactly one transition, whose destination is the new current state, or leaves current
  state and history as they were, and returns the current state it leaves. A call of
  \<open>backtrack\<close> either returns at once and changes nothing (empty history, or more steps
  than transitions), or leaves a machine that satisfies the invariant, whatever the machine
  was before.
\<close>

theorem machine_invariant:
  "(\<exists>m'. run_ops xs init_machine = Inr m' \<and> machine_inv m') \<and>
   ((state_history (snd (next_state now ctx m)) =
       state_history m @ [last (state_history (snd (next_state now ctx m)))] \<and>
     to_state (last (state_history (snd (next_state now ctx m)))) =
       current_state (snd (next_state now ctx m))) \<or>
    (state_history (snd (next_state now ctx m)) = state_history m \<and>
     current_state (snd (next_state now ctx m)) = current_state m)) \<and>
   fst (next_state now ctx m) = current_state (snd (next_state now ctx m)) \<and>
   ((backtrack steps m = Inr (current_state m, m) \<and>
       (\<not> can_backtrack m \<or> steps > int (length (state_history m)))) \<or>
    (\<exists>m'. backtrack steps m = Inr (current_state m', m') \<and> machine_inv m'))"
proof -
  have "machine_inv init_machine"
    by (simp add: machine_inv_def history_state_def init_machine_def)
  then have "\<exists>m'. run_ops xs init_machine = Inr m' \<and> machine_inv m'"
    by (rule run_ops_inv)
  then show ?thesis
    using next_state_step [of now ctx m] next_state_returns_current [of now ctx m]
      backtrack_cases [of steps m]
    by blast
qed

lemma refining_machine_eval:
  "refining_machine =
     \<lparr>current_state = REFINING,
      state_history = [\<lparr>from_state = PLANNING, to_state = SEARCHING,
                        condition = ''plan_complete'', timestamp = 0,
                        reason = ''plan_complete''\<rparr>,
                       \<lparr>from_state = SEARCHING, to_state = REFINING,
                        condition = ''no_results'', timestamp = 1,
                        reason = ''no_results''\<rparr>],
      machine_context = empty_context\<rparr>"
  by (simp add: refining_machine_def searching_machine_eval empty_context_def next_state_unfold)

lemma run_ops_example:
  "run_ops [NextState 0 empty_context, NextState 1 empty_context, Backtrack 1] init_machine
     = Inr searching_machine"
proof -
  have "backtrack 1 refining_machine = Inr (SEARCHING, searching_machine)"
    by (simp add: refining_machine_eval searching_machine_eval backtrack_def can_backtrack_def)
  then show ?thesis
    by (simp add: refining_machine_def searching_machine_def)
qed

theorem machine_invariant_witness:
  "run_ops [NextState 0 empty_context, NextState 1 empty_context, Backtrack 1] init_machine
     = Inr searching_machine \<and>
   machine_inv searching_machine \<and>
   state_history (snd (next_state 2 empty_context refining_machine)) =
     state_history refining_machine @
       [\<lparr>from_state = REFINING, to_state = SEARCHING, condition = ''strategy_refined'',
         timestamp = 2, reason = ''strategy_refined''\<rparr>] \<and>
   current_state (snd (next_state 2 empty_context refining_machine)) = SEARCHING \<and>
   backtrack 1 refining_machine = Inr (SEARCHING, searching_machine)"
proof -
  have "\<exists>m'. run_ops [NextState 0 empty_context, NextState 1 empty_context, Backtrack 1]
                init_machine = Inr m' \<and> machine_inv m'"
    using machine_invariant [of "[NextState 0 empty_context, NextState 1 empty_context, Backtrack 1]"
        2 empty_context refining_machine 1]
    by (rule conjunct1)
  then have inv: "machine_inv searching_machine"
    unfolding run_ops_example by simp
  have step: "next_state 2 empty_context refining_machine =
      transition_to 2 SEARCHING ''strategy_refined'' refining_machine"
    by (simp add: refining_machine_eval empty_context_def next_state_unfold)
  have undo: "backtrack 1 refining_machine = Inr (SEARCHING, searching_machine)"
    by (simp add: refining_machine_eval searching_machine_eval backtrack_def can_backtrack_def)
  have hist: "state_history (snd (next_state 2 empty_context refining_machine)) =
      state_history refining_machine @
        [\<lparr>from_state = REFINING, to_state = SEARCHING, condition = ''strategy_refined'',
          timestamp = 2, reason = ''strategy_refined''\<rparr>]"
    by (simp add: step transition_to_def refining_machine_state)
  have cur: "current_state (snd (next_state 2 empty_context refining_machine)) = SEARCHING"
    by (simp add: step transition_to_def)
  from run_ops_example inv hist cur undo show ?thesis
    by (intro conjI)
qed

section \<open>Properties of the A/B test\<close>

subsection \<open>Appending to the per-variant values\<close>

lemma stats_append_missing:
  "k \<notin> fst ` set vs \<Longrightarrow> stats_append k x vs = Inl KeyError"
  by (induction vs) auto

lemma stats_append_present:
  "k \<in> fst ` set vs \<Longrightarrow>
   \<exists>vs'. stats_append k x vs = Inr vs' \<and> map fst vs' = map fst vs \<and>
         stats_total vs' = Suc (stats_total vs) \<and>
         (\<forall>j. map_of vs' j =
                (if j = k then map_option (\<lambda>old. old @ [x]) (map_of vs k) else map_of vs j))"
proof (induction vs)
  case Nil
  then show ?case by simp
next
  case (Cons kv vs)
  obtain k' old where kv: "kv = (k', old)" by (cases kv)
  show ?case
  proof (cases "k = k'")
    case True
    with kv show ?thesis by (simp add: stats_total_def)
  next
    case False
    with Cons.prems kv have "k \<in> fst ` set vs" by auto
    from Cons.IH [OF this] obtain vs' where
      "stats_append k x vs = Inr vs'" "map fst vs' = map fst vs"
      "stats_total vs' = Suc (stats_total vs)"
      "\<forall>j. map_of vs' j =
             (if j = k then map_option (\<lambda>old. old @ [x]) (map_of vs k) else map_of vs j)"
      by blast
    with False kv show ?thesis by (simp add: stats_total_def)
  qed
qed

lemma record_result_variant:
  "(case (if vname \<in> set [''A'', ''B''] then Variant_of_value vname else Inr CONTROL) of
      Inl e \<Rightarrow> f e | Inr v \<Rightarrow> g v) =
   g (if vname = ''A'' then A else if vname = ''B'' then B else CONTROL)"
  by (simp add: Variant_of_value_def)

lemma record_result_unfold:
  "record_result now vname x md t =
     (case stats_append vname x (variant_stats t) of
        Inl e \<Rightarrow> (Inl e, t\<lparr>results := results t @ [new_result now vname x md t]\<rparr>)
      | Inr vs \<Rightarrow> (Inr (), t\<lparr>results := results t @ [new_result now vname x md t],
                               variant_stats := vs\<rparr>))"
  unfolding record_result_def record_result_variant
  by (cases "stats_append vname x (variant_stats t)") (simp_all add: new_result_def Let_def)

text \<open>
  C10. On a test whose \<open>variant_stats\<close> has the keys of \<open>variants\<close> (as \<open>__init__\<close> makes
  it), \<open>record_result\<close> for a name that is not a key raises KeyError and leaves a test
  whose \<open>results\<close> has grown by the new result while \<open>variant_stats\<close> is unchanged; for a
  key it returns normally, \<open>results\<close> has grown by the new result, \<open>variant_stats\<close> has the
  same keys in the same order and one value more, the new value appended to the values of
  that key and all other values as before.
\<close>

theorem record_result_effect:
  assumes "map fst (variant_stats t) = map fst (variants t)"
  shows "results (snd (record_result now vname x md t)) =
           results t @ [new_result now vname x md t] \<and>
         variants (snd (record_result now vname x md t)) = variants t \<and>
         (if vname \<in> fst ` set (variants t)
          then fst (record_result now vname x md t) = Inr () \<and>
               map fst (variant_stats (snd (record_result now vname x md t))) =
                 map fst (variant_stats t) \<and>
               stats_total (variant_stats (snd (record_result now vname x md t))) =
                 Suc (stats_total (variant_stats t)) \<and>
               (\<forall>j. map_of (variant_stats (snd (record_result now vname x md t))) j =
                      (if j = vname
                       then map_option (\<lambda>old. old @ [x]) (map_of (variant_stats t) vname)
                       else map_of (variant_stats t) j))
          else fst (record_result now vname x md t) = Inl KeyError \<and>
               variant_stats (snd (record_result now vname x md t)) = variant_stats t)"
proof (cases "vname \<in> fst ` set (variants t)")
  case True
  then have "vname \<in> fst ` set (variant_stats t)"
    using assms by (metis list.set_map)
  from stats_append_present [OF this, of x] obtain vs' where
    "stats_append vname x (variant_stats t) = Inr vs'"
    "map fst vs' = map fst (variant_stats t)"
    "stats_total vs' = Suc (stats_total (variant_stats t))"
    "\<forall>j. map_of vs' j =
           (if j = vname then map_option (\<lambda>old. old @ [x]) (map_of (variant_stats t) vname)
            else map_of (variant_stats t) j)"
    by blast
  with True show ?thesis by (simp add: record_result_unfold)
next
  case False
  then have "vname \<notin> fst ` set (variant_stats t)"
    using assms by (metis list.set_map)
  then have "stats_append vname x (variant_stats t) = Inl KeyError"
    by (rule stats_append_missing)
  with False show ?thesis by (simp add: record_result_unfold)
qed

lemma ABTest_init_keys:
  "map fst (variant_stats (ABTest_init nm mtr vars)) = map fst (variants (ABTest_init nm mtr vars))"
  by (simp add: ABTest_init_def comp_def)

lemma record_result_keys:
  "map fst (variant_stats t) = map fst (variants t) \<Longrightarrow>
   map fst (variant_stats (snd (record_result now vname x md t))) =
     map fst (variants (snd (record_result now vname x md t)))"
proof (cases "vname \<in> fst ` set (variant_stats t)")
  case True
  assume "map fst (variant_stats t) = map fst (variants t)"
  with stats_append_present [OF True, of x] show ?thesis
    by (auto simp: record_result_unfold)
next
  case False
  assume "map fst (variant_stats t) = map fst (variants t)"
  with stats_append_missing [OF False, of x] show ?thesis
    by (simp add: record_result_unfold)
qed

lemma unregistered_test_eval:
  "unregistered_test =
     \<lparr>test_name = ''planning_strategy'', metric = ''confidence'', variants = [(''A'', ())],
      results = [\<lparr>variant = CONTROL, metric_name = ''confidence'', metric_value = 1,
                  recorded_at = 1, metadata = []\<rparr>],
      variant_stats = [(''A'', [])]\<rparr>"
  by (simp add: unregistered_test_def record_result_unfold new_result_def ABTest_init_def)

lemma example_test_eval:
  "example_test =
     \<lparr>test_name = ''planning_strategy'', metric = ''confidence'',
      variants = [(''A'', ()), (''B'', ())],
      results = [\<lparr>variant = A, metric_name = ''confidence'', metric_value = 1,
                  recorded_at = 1, metadata = []\<rparr>,
                 \<lparr>variant = B, metric_name = ''confidence'', metric_value = 0.75,
                  recorded_at = 2, metadata = []\<rparr>],
      variant_stats = [(''A'', [1]), (''B'', [0.75])]\<rparr>"
  by (simp add: example_test_def record_result_unfold new_result_def ABTest_init_def)

theorem record_result_effect_witness:
  "fst (record_result 1 ''C'' 1 None
          (ABTest_init ''planning_strategy'' ''confidence'' [(''A'', ())] :: (unit, unit) ABTest))
     = Inl KeyError \<and>
   length (results unregistered_test) = 1 \<and>
   variant_stats unregistered_test = [(''A'', [])] \<and>
   fst (record_result 3 ''B'' 0.5 None example_test) = Inr () \<and>
   map_of (variant_stats (snd (record_result 3 ''B'' 0.5 None example_test))) ''B''
     = Some [0.75, 0.5] \<and>
   map_of (variant_stats (snd (record_result 3 ''B'' 0.5 None example_test))) ''A''
     = Some [1]"
proof -
  have keys: "map fst (variant_stats example_test) = map fst (variants example_test)"
    by (simp add: example_test_eval)
  have reg: "''B'' \<in> fst ` set (variants example_test)"
    by (simp add: example_test_eval)
  from record_result_effect [OF keys, of 3 "''B''" "0.5" None] reg
  have "fst (record_result 3 ''B'' 0.5 None example_test) = Inr ()"
    and "\<forall>j. map_of (variant_stats (snd (record_result 3 ''B'' 0.5 None example_test))) j =
           (if j = ''B''
            then map_option (\<lambda>old. old @ [0.5]) (map_of (variant_stats example_test) ''B'')
            else map_of (variant_stats example_test) j)"
    by simp_all
  then have "fst (record_result 3 ''B'' 0.5 None example_test) = Inr ()"
    and "map_of (variant_stats (snd (record_result 3 ''B'' 0.5 None example_test))) ''B''
           = Some [0.75, 0.5]"
    and "map_of (variant_stats (snd (record_result 3 ''B'' 0.5 None example_test))) ''A''
           = Some [1]"
    by (simp_all add: example_test_eval)
  moreover have "fst (record_result 1 ''C'' 1 None
      (ABTest_init ''planning_strategy'' ''confidence'' [(''A'', ())] :: (unit, unit) ABTest))
     = Inl KeyError"
    by (simp add: record_result_unfold ABTest_init_def)
  moreover have "length (results unregistered_test) = 1"
    and "variant_stats unregistered_test = [(''A'', [])]"
    by (simp_all add: unregistered_test_eval)
  ultimately show ?thesis by (intro conjI)
qed

subsection \<open>The statistics and the winner\<close>

lemma build_stats_mem:
  "(k, s) \<in> set (build_stats vs) \<Longrightarrow>
   \<exists>ws. (k, ws) \<in> set vs \<and> ws \<noteq> [] \<and> mean s = list_mean ws"
  by (induction vs rule: build_stats.induct) (auto simp: list_mean_def split: if_splits)

lemma build_stats_keys: "fst ` set (build_stats vs) \<subseteq> fst ` set vs"
  by (induction vs rule: build_stats.induct) auto

lemma build_stats_distinct:
  "distinct (map fst vs) \<Longrightarrow> distinct (map fst (build_stats vs))"
proof (induction vs rule: build_stats.induct)
  case 1
  then show ?case by simp
next
  case (2 v "values" rest)
  have "v \<notin> fst ` set (build_stats rest)"
    using "2.prems" build_stats_keys [of rest] by auto
  with 2 show ?case by auto
qed

lemma build_stats_nonempty:
  "\<exists>kv\<in>set vs. snd kv \<noteq> [] \<Longrightarrow> build_stats vs \<noteq> []"
  by (induction vs rule: build_stats.induct) auto

lemma build_stats_all_empty:
  "\<forall>kv\<in>set vs. snd kv = [] \<Longrightarrow> build_stats vs = []"
  by (induction vs rule: build_stats.induct) auto


lemma foldl_best_mem:
  "foldl (\<lambda>best y. if mean (snd y) > mean (snd best) then y else best) x xs \<in> set (x # xs)"
  by (induction xs arbitrary: x) (simp, force)

lemma foldl_best_ge_start:
  "mean (snd x) \<le>
     mean (snd (foldl (\<lambda>best y. if mean (snd y) > mean (snd best) then y else best) x xs))"
proof (induction xs arbitrary: x)
  case Nil
  then show ?case by simp
next
  case (Cons y ys)
  show ?case
  proof (cases "mean (snd y) > mean (snd x)")
    case True
    with Cons [of y] show ?thesis by simp
  next
    case False
    with Cons [of x] show ?thesis by simp
  qed
qed

lemma foldl_best_max:
  "y \<in> set (x # xs) \<Longrightarrow>
   mean (snd y) \<le>
     mean (snd (foldl (\<lambda>best y. if mean (snd y) > mean (snd best) then y else best) x xs))"
proof (induction xs arbitrary: x)
  case Nil
  then show ?case by simp
next
  case (Cons z zs)
  let ?f = "\<lambda>best y. if mean (snd y) > mean (snd best) then y else best"
  show ?case
  proof (cases "y \<in> set zs")
    case True
    then have "y \<in> set (?f x z # zs)" by simp
    from Cons.IH [OF this] show ?thesis by simp
  next
    case False
    with Cons.prems have "y = x \<or> y = z" by auto
    then have "mean (snd y) \<le> mean (snd (?f x z))" by auto
    also have "\<dots> \<le> mean (snd (foldl ?f (?f x z) zs))"
      by (rule foldl_best_ge_start)
    finally show ?thesis by simp
  qed
qed

lemma max_by_mean_best:
  "stats \<noteq> [] \<Longrightarrow>
   \<exists>b. max_by_mean stats = Inr b \<and> b \<in> set stats \<and>
       (\<forall>y\<in>set stats. mean (snd y) \<le> mean (snd b))"
proof (cases stats)
  case Nil
  assume "stats \<noteq> []"
  with Nil show ?thesis by simp
next
  case (Cons x xs)
  with foldl_best_mem [of x xs] foldl_best_max [of _ x xs] show ?thesis
    by auto
qed

lemma max_by_mean_empty: "max_by_mean [] = Inl ValueError"
  by simp

lemma margins_of_build_stats:
  "map (\<lambda>(v, s). (wm - mean s) / max wm 0.01)
       (filter (\<lambda>(v, s). v \<noteq> w) (build_stats vs)) =
   map (\<lambda>om. (wm - om) / max wm 0.01) (other_means w vs)"
  by (induction vs rule: build_stats.induct) (auto simp: other_means_def list_mean_def)

lemma other_means_from_stats:
  "om \<in> set (other_means w vs) \<Longrightarrow> \<exists>kv\<in>set (build_stats vs). om = mean (snd kv)"
  by (induction vs rule: build_stats.induct)
     (auto simp: other_means_def list_mean_def split: if_splits)

lemma calculate_confidence_eq:
  "map_of (build_stats vs) w = Some s \<Longrightarrow>
   calculate_confidence w (build_stats vs) = Inr (margin_confidence (mean s) (other_means w vs))"
  unfolding calculate_confidence_def Let_def margins_of_build_stats
  by (simp add: margin_confidence_def average_margin_def)

lemma average_margin_nonneg:
  assumes "\<forall>om\<in>set others. om \<le> wm"
  shows "0 \<le> average_margin wm others"
proof -
  have "0 < max wm 0.01" by simp
  then have "\<forall>om\<in>set others. 0 \<le> (wm - om) / max wm 0.01"
    using assms by simp
  then have "0 \<le> sum_list (map (\<lambda>om. (wm - om) / max wm 0.01) others)"
    by (intro sum_list_nonneg) auto
  then show ?thesis by (simp add: average_margin_def)
qed

lemma margin_confidence_range:
  assumes "\<forall>om\<in>set others. om \<le> wm"
  shows "0.5 \<le> margin_confidence wm others \<and> margin_confidence wm others \<le> 0.95"
  using average_margin_nonneg [OF assms] by (auto simp: margin_confidence_def min_def)

text \<open>What \<open>get_winner\<close> returns, by cases.\<close>

lemma get_winner_insufficient:
  "int (length (results t)) < k \<Longrightarrow>
   get_winner k t = Inr (Insufficient (insufficient_message k (length (results t))))"
  by (simp add: get_winner_def insufficient_message_def)

lemma get_winner_no_data:
  "\<not> int (length (results t)) < k \<Longrightarrow> \<forall>kv\<in>set (variant_stats t). snd kv = [] \<Longrightarrow>
   get_winner k t = Inl ValueError"
  by (simp add: get_winner_def build_stats_all_empty)

lemma get_winner_found:
  assumes enough: "\<not> int (length (results t)) < k"
    and data: "\<exists>kv\<in>set (variant_stats t). snd kv \<noteq> []"
    and keys: "distinct (map fst (variant_stats t))"
  shows "\<exists>b. b \<in> set (build_stats (variant_stats t)) \<and>
             (\<forall>y\<in>set (build_stats (variant_stats t)). mean (snd y) \<le> mean (snd b)) \<and>
             get_winner k t =
               Inr (WinnerFound (fst b) (mean (snd b))
                      (margin_confidence (mean (snd b)) (other_means (fst b) (variant_stats t)))
                      (build_stats (variant_stats t)))"
proof -
  let ?stats = "build_stats (variant_stats t)"
  from data have "?stats \<noteq> []" by (rule build_stats_nonempty)
  from max_by_mean_best [OF this] obtain b where
    b: "max_by_mean ?stats = Inr b" "b \<in> set ?stats"
       "\<forall>y\<in>set ?stats. mean (snd y) \<le> mean (snd b)"
    by blast
  from keys have "distinct (map fst ?stats)" by (rule build_stats_distinct)
  with b(2) have "map_of ?stats (fst b) = Some (snd b)" by simp
  then have "calculate_confidence (fst b) ?stats =
      Inr (margin_confidence (mean (snd b)) (other_means (fst b) (variant_stats t)))"
    by (rule calculate_confidence_eq)
  with enough b(1) have "get_winner k t =
      Inr (WinnerFound (fst b) (mean (snd b))
             (margin_confidence (mean (snd b)) (other_means (fst b) (variant_stats t)))
             ?stats)"
    by (simp add: get_winner_def)
  with b(2,3) show ?thesis by blast
qed





text \<open>\<open>results\<close> and \<open>variant_stats\<close> hold the same number of entries as long as every
  call of \<open>record_result\<close> returned normally.\<close>

lemma ABTest_init_balanced:
  "length (results (ABTest_init nm mtr vars)) =
     stats_total (variant_stats (ABTest_init nm mtr vars))"
  by (simp add: ABTest_init_def stats_total_def comp_def)

lemma record_result_balanced:
  assumes "length (results t) = stats_total (variant_stats t)"
    and "fst (record_result now vname x md t) = Inr ()"
  shows "length (results (snd (record_result now vname x md t))) =
           stats_total (variant_stats (snd (record_result now vname x md t)))"
proof (cases "vname \<in> fst ` set (variant_stats t)")
  case True
  from stats_append_present [OF True, of x] assms(1) show ?thesis
    by (auto simp: record_result_unfold)
next
  case False
  from stats_append_missing [OF False, of x] assms(2) show ?thesis
    by (simp add: record_result_unfold)
qed

lemma example_test_winner:
  "get_winner 2 example_test =
     Inr (WinnerFound ''A'' 1 (3/4)
            [(''A'', \<lparr>mean = 1, count = 1, std_dev = 0\<rparr>),
             (''B'', \<lparr>mean = 3/4, count = 1, std_dev = 0\<rparr>)])"
  by (simp add: example_test_eval get_winner_def calculate_confidence_def std_def)




text \<open>
  C8, as claimed: the confidence is the average relative margin over the other variants
  with data, clamped to the range from 0.5 to 0.95. It fails on the test with the values
  1 for A and 0.75 for B: the average margin is 0.25, which clamps to 0.5, and
  \<open>get_winner\<close> reports 0.75.
\<close>

theorem winner_confidence_counterexample:
  "get_winner 2 example_test =
     Inr (WinnerFound ''A'' 1 (3/4)
            [(''A'', \<lparr>mean = 1, count = 1, std_dev = 0\<rparr>),
             (''B'', \<lparr>mean = 3/4, count = 1, std_dev = 0\<rparr>)]) \<and>
   other_means ''A'' (variant_stats example_test) = [3/4] \<and>
   average_margin 1 [3/4] = 1/4 \<and>
   spec_confidence 1 [3/4] = 1/2 \<and>
   (3/4 :: real) \<noteq> spec_confidence 1 (other_means ''A'' (variant_stats example_test))"
proof (intro conjI)
  show "get_winner 2 example_test =
     Inr (WinnerFound ''A'' 1 (3/4)
            [(''A'', \<lparr>mean = 1, count = 1, std_dev = 0\<rparr>),
             (''B'', \<lparr>mean = 3/4, count = 1, std_dev = 0\<rparr>)])"
    by (rule example_test_winner)
  show "other_means ''A'' (variant_stats example_test) = [3/4]"
    by (simp add: example_test_eval other_means_def list_mean_def)
  show "average_margin 1 [3/4] = 1/4"
    by (simp add: average_margin_def)
  show "spec_confidence 1 [3/4] = 1/2"
    by (simp add: spec_confidence_def average_margin_def)
  show "(3/4 :: real) \<noteq> spec_confidence 1 (other_means ''A'' (variant_stats example_test))"
    by (simp add: example_test_eval other_means_def list_mean_def spec_confidence_def
        average_margin_def)
qed

text \<open>
  C8, amended: whenever \<open>get_winner\<close> declares a winner, the reported confidence is 0.5 plus
  the average, over the other variants with at least one value, of
  \<open>(winner_mean - other_mean) / max(winner_mean, 0.01)\<close>, capped at 0.95, and 0.5 when the
  winner is the only variant with data. It lies between 0.5 and 0.95, because the reported
  mean is the mean of the winner's values and no other mean is larger.
\<close>

theorem winner_confidence:
  assumes report: "get_winner k t = Inr (WinnerFound w mu c st)"
    and keys: "distinct (map fst (variant_stats t))"
  shows "c = margin_confidence mu (other_means w (variant_stats t)) \<and>
         0.5 \<le> c \<and> c \<le> 0.95 \<and>
         (other_means w (variant_stats t) = [] \<longrightarrow> c = 0.5) \<and>
         (\<exists>ws. map_of (variant_stats t) w = Some ws \<and> ws \<noteq> [] \<and> mu = list_mean ws) \<and>
         (\<forall>om\<in>set (other_means w (variant_stats t)). om \<le> mu)"
proof -
  let ?vs = "variant_stats t"
  have enough: "\<not> int (length (results t)) < k"
    using report by (auto simp: get_winner_insufficient)
  have data: "\<exists>kv\<in>set ?vs. snd kv \<noteq> []"
  proof (rule ccontr)
    assume "\<not> (\<exists>kv\<in>set ?vs. snd kv \<noteq> [])"
    then have "\<forall>kv\<in>set ?vs. snd kv = []" by blast
    from get_winner_no_data [OF enough this] report show False by simp
  qed
  from get_winner_found [OF enough data keys] report obtain b where
    b: "b \<in> set (build_stats ?vs)"
       "\<forall>y\<in>set (build_stats ?vs). mean (snd y) \<le> mean (snd b)"
    and w: "w = fst b" and mu: "mu = mean (snd b)"
    and c: "c = margin_confidence mu (other_means w ?vs)"
    by auto
  have others: "\<forall>om\<in>set (other_means w ?vs). om \<le> mu"
  proof
    fix om assume "om \<in> set (other_means w ?vs)"
    from other_means_from_stats [OF this] b(2) mu show "om \<le> mu" by auto
  qed
  from margin_confidence_range [OF others] c
  have range: "0.5 \<le> c \<and> c \<le> 0.95" by simp
  from c have alone: "other_means w ?vs = [] \<longrightarrow> c = 0.5"
    by (simp add: margin_confidence_def)
  from b(1) w have "(w, snd b) \<in> set (build_stats ?vs)" by simp
  from build_stats_mem [OF this] obtain ws where
    ws: "(w, ws) \<in> set ?vs" "ws \<noteq> []" "mean (snd b) = list_mean ws" by blast
  from keys ws(1) have "map_of ?vs w = Some ws" by simp
  with ws mu have own: "\<exists>ws. map_of ?vs w = Some ws \<and> ws \<noteq> [] \<and> mu = list_mean ws"
    by simp
  from c range alone own others show ?thesis by blast
qed

theorem winner_confidence_witness:
  "get_winner 2 example_test =
     Inr (WinnerFound ''A'' 1 (3/4)
            [(''A'', \<lparr>mean = 1, count = 1, std_dev = 0\<rparr>),
             (''B'', \<lparr>mean = 3/4, count = 1, std_dev = 0\<rparr>)]) \<and>
   distinct (map fst (variant_stats example_test)) \<and>
   (3/4 :: real) = margin_confidence 1 (other_means ''A'' (variant_stats example_test)) \<and>
   margin_confidence 1 [3/4] = 3/4"
proof -
  have keys: "distinct (map fst (variant_stats example_test))"
    by (simp add: example_test_eval)
  from winner_confidence [OF example_test_winner keys]
  have "(3/4 :: real) = margin_confidence 1 (other_means ''A'' (variant_stats example_test))"
    by (rule conjunct1)
  moreover have "margin_confidence 1 [3/4] = 3/4"
    by (simp add: margin_confidence_def average_margin_def)
  ultimately show ?thesis using example_test_winner keys by simp
qed


end
